theory Spec2Isabelle
  imports Complex_Main "HOL-Library.Sublist"
begin

section \<open>Text primitives of the scripts\<close>

text \<open>
  The scripts process decoded serial lines with Python's \<^verbatim>\<open>str.strip\<close>,
  \<^verbatim>\<open>str.split(',')\<close>, the substring test \<^verbatim>\<open>msg in line\<close> and the
  constructor \<^verbatim>\<open>float(text)\<close>. A line is a \<^typ>\<open>string\<close>; its characters are
  the code points below 256.
\<close>

definition py_space :: "char \<Rightarrow> bool" where
  \<comment> \<open>the characters \<^verbatim>\<open>str.isspace\<close> accepts: TAB, LF, VT, FF, CR, FS, GS, RS, US, space, NEL, NBSP\<close>
  "py_space c \<longleftrightarrow>
     c \<in> set [CHR 0x09, CHR 0x0A, CHR 0x0B, CHR 0x0C, CHR 0x0D,
               CHR 0x1C, CHR 0x1D, CHR 0x1E, CHR 0x1F, CHR 0x20, CHR 0x85, CHR 0xA0]"

definition strip :: "string \<Rightarrow> string" where
  \<comment> \<open>\<^verbatim>\<open>s.strip()\<close>\<close>
  "strip s = rev (dropWhile py_space (rev (dropWhile py_space s)))"

fun split_on :: "char \<Rightarrow> string \<Rightarrow> string list" where
  \<comment> \<open>\<^verbatim>\<open>s.split(sep)\<close> for a one-character separator: always at least one field\<close>
  "split_on sep [] = [[]]"
| "split_on sep (c # cs) =
     (if c = sep then [] # split_on sep cs
      else (case split_on sep cs of
              [] \<Rightarrow> [[c]]
            | f # fs \<Rightarrow> (c # f) # fs))"

fun contains :: "string \<Rightarrow> string \<Rightarrow> bool" where
  \<comment> \<open>\<^verbatim>\<open>msg in line\<close>: \<open>contains line msg\<close>\<close>
  "contains [] msg = (msg = [])"
| "contains (c # cs) msg = (prefix msg (c # cs) \<or> contains cs msg)"

definition count_char :: "char \<Rightarrow> string \<Rightarrow> nat" where
  \<comment> \<open>\<^verbatim>\<open>line.count(',')\<close>\<close>
  "count_char c s = length (filter (\<lambda>d. d = c) s)"

subsection \<open>\<^verbatim>\<open>float(text)\<close>\<close>

text \<open>
  A Python float is modelled by its exact value: a finite float by the real number its
  decimal text denotes (rounding to the nearest double and overflow are left out), the
  three special values by their own constructors.
\<close>

datatype pyfloat = Finite real | PInf | NInf | NaN

definition is_digit :: "char \<Rightarrow> bool" where
  "is_digit c \<longleftrightarrow> c \<in> set ''0123456789''"

definition digit_val :: "char \<Rightarrow> nat" where
  \<comment> \<open>the place of a digit in \<^verbatim>\<open>0123456789\<close>\<close>
  "digit_val c = length (takeWhile (\<lambda>d. d \<noteq> c) ''0123456789'')"

definition digits_val :: "string \<Rightarrow> nat" where
  "digits_val ds = foldl (\<lambda>n c. 10 * n + digit_val c) 0 ds"

fun drop_underscores :: "bool \<Rightarrow> string \<Rightarrow> string option" where
  \<comment> \<open>an underscore is legal only between two digits; the flag says the previous character was a digit\<close>
  "drop_underscores prev [] = Some []"
| "drop_underscores prev (c # cs) =
     (if c = CHR ''_'' then
        (if prev \<and> (case cs of [] \<Rightarrow> False | d # _ \<Rightarrow> is_digit d)
         then drop_underscores False cs else None)
      else map_option ((#) c) (drop_underscores (is_digit c) cs))"

definition ci_word :: "string \<Rightarrow> string \<Rightarrow> string \<Rightarrow> bool" where
  \<comment> \<open>\<open>s\<close> spells the word, each letter in either case\<close>
  "ci_word lo up s \<longleftrightarrow> list_all2 (\<lambda>c (l, u). c = l \<or> c = u) s (zip lo up)"

definition scale10 :: "nat \<Rightarrow> int \<Rightarrow> real" where
  \<comment> \<open>\<open>m * 10 ^ k\<close> for an integer exponent\<close>
  "scale10 m k = (if 0 \<le> k then real m * 10 ^ nat k else real m / 10 ^ nat (- k))"

definition parse_exponent :: "string \<Rightarrow> int option" where
  \<comment> \<open>what follows the mantissa: nothing, or \<^verbatim>\<open>e\<close>/\<^verbatim>\<open>E\<close>, an optional sign and at least one digit\<close>
  "parse_exponent r =
     (case r of
        [] \<Rightarrow> Some 0
      | e # r1 \<Rightarrow>
          if e = CHR ''e'' \<or> e = CHR ''E'' then
            (let (neg, r2) = (case r1 of
                                 [] \<Rightarrow> (False, [])
                               | s # r' \<Rightarrow> if s = CHR ''-'' then (True, r')
                                           else if s = CHR ''+'' then (False, r')
                                           else (False, r1))
             in if r2 \<noteq> [] \<and> list_all is_digit r2
                then Some (if neg then - int (digits_val r2) else int (digits_val r2))
                else None)
          else None)"

definition parse_decimal :: "string \<Rightarrow> real option" where
  \<comment> \<open>digits, an optional point and digits, an optional exponent; at least one mantissa digit\<close>
  "parse_decimal r =
     (let ip = takeWhile is_digit r; r1 = dropWhile is_digit r;
          (fp, r2) = (case r1 of
                        [] \<Rightarrow> ([], [])
                      | p # r' \<Rightarrow> if p = CHR ''.'' then (takeWhile is_digit r', dropWhile is_digit r')
                                  else ([], r1))
      in if ip = [] \<and> fp = [] then None
         else (case parse_exponent r2 of
                 None \<Rightarrow> None
               | Some e \<Rightarrow> Some (scale10 (digits_val (ip @ fp)) (e - int (length fp)))))"

definition parse_unsigned :: "string \<Rightarrow> pyfloat option" where
  "parse_unsigned r =
     (if ci_word ''inf'' ''INF'' r \<or> ci_word ''infinity'' ''INFINITY'' r then Some PInf
      else if ci_word ''nan'' ''NAN'' r then Some NaN
      else map_option Finite (parse_decimal r))"

fun negate :: "pyfloat \<Rightarrow> pyfloat" where
  "negate (Finite x) = Finite (- x)"
| "negate PInf = NInf"
| "negate NInf = PInf"
| "negate NaN = NaN"

definition py_float :: "string \<Rightarrow> pyfloat option" where
  \<comment> \<open>\<^verbatim>\<open>float(s)\<close> on a string: \<open>None\<close> is the \<^verbatim>\<open>ValueError\<close>\<close>
  "py_float s =
     (case drop_underscores False (strip s) of
        None \<Rightarrow> None
      | Some u \<Rightarrow>
          (case u of
             [] \<Rightarrow> None
           | c # r \<Rightarrow> if c = CHR ''-'' then map_option negate (parse_unsigned r)
                       else if c = CHR ''+'' then parse_unsigned r
                       else parse_unsigned u))"

definition float_char :: "char \<Rightarrow> bool" where
  \<comment> \<open>the characters a text that \<^verbatim>\<open>float\<close> accepts can hold\<close>
  "float_char c \<longleftrightarrow> py_space c \<or> is_digit c \<or> c \<in> set ''_+-.eEinfatyINFATY''"

section \<open>The serial port and the console\<close>

text \<open>
  The reading loops poll the port once per turn. What the port does in one turn is an
  \<open>event\<close>: nothing is waiting, a line arrives (the decoded text, before
  \<^verbatim>\<open>strip\<close>), the user presses Ctrl+C, the port raises
  \<^verbatim>\<open>SerialException\<close>, or the bytes read are not UTF-8. A loop is run on the
  list of events of its turns; when the list is used up the loop is still polling. The
  stop signal is taken at a turn of the loop, not in the middle of one.
\<close>

datatype event = NoData | Line string | Interrupt | PortError | BadBytes

datatype exn = KeyboardInterrupt | SerialException | UnicodeDecodeError

datatype printed =
    Text string  \<comment> \<open>a printed line of fixed text, possibly quoting the input line\<close>
  | Vals string "pyfloat list"  \<comment> \<open>a printed line that formats floats: its fixed label and the values\<close>
  | Details string  \<comment> \<open>a printed line quoting an exception: its fixed label\<close>

datatype ('s, 'r) outcome =
    Polling 's  \<comment> \<open>the events ran out inside the loop: the state so far\<close>
  | Returned 'r "printed list"  \<comment> \<open>the function returned this value\<close>
  | Escaped exn "printed list"  \<comment> \<open>the exception left the function: nothing is returned\<close>

record console =
  out :: "printed list"

definition print :: "printed \<Rightarrow> 'a console_scheme \<Rightarrow> 'a console_scheme" where
  "print p st = st\<lparr>out := out st @ [p]\<rparr>"

section \<open>serialmonitor.py: the 4-field polar capture\<close>

type_synonym measurement = "pyfloat \<times> pyfloat \<times> pyfloat \<times> pyfloat"

record monitor = console +
  measurement_points :: "measurement list"

definition parse_error :: "string \<Rightarrow> monitor \<Rightarrow> monitor" where
  \<comment> \<open>the handler of \<^verbatim>\<open>ValueError\<close>\<close>
  "parse_error line st = print (Details ''Error details: '') (print (Text (''Error parsing line: '' @ line)) st)"

definition serial_line :: "string \<Rightarrow> monitor \<Rightarrow> monitor" where
  \<comment> \<open>the loop body of \<^verbatim>\<open>read_serial_data\<close> once a line was read\<close>
  "serial_line raw st =
     (let line = strip raw in
      if line \<noteq> [] then
        (let vals = split_on (CHR '','') line in
         if length vals = 4 then
           (case py_float (vals ! 0) of None \<Rightarrow> parse_error line st | Some distance \<Rightarrow>
           (case py_float (vals ! 1) of None \<Rightarrow> parse_error line st | Some platform_angle \<Rightarrow>
           (case py_float (vals ! 2) of None \<Rightarrow> parse_error line st | Some vertical_angle \<Rightarrow>
           (case py_float (vals ! 3) of None \<Rightarrow> parse_error line st | Some height \<Rightarrow>
              print (Vals ''Received'' [distance, platform_angle, vertical_angle, height])
                (st\<lparr>measurement_points :=
                      measurement_points st @ [(distance, platform_angle, vertical_angle, height)]\<rparr>)))))
         else st)
      else st)"

fun serial_loop :: "event list \<Rightarrow> monitor \<Rightarrow> (monitor, measurement list) outcome" where
  "serial_loop [] st = Polling st"
| "serial_loop (NoData # evs) st = serial_loop evs st"
| "serial_loop (Line raw # evs) st = serial_loop evs (serial_line raw st)"
| "serial_loop (Interrupt # evs) st =
     Returned (measurement_points st) (out st @ [Text (CHR 0x0A # ''Stopped reading data'')])"
| "serial_loop (PortError # evs) st = Escaped SerialException (out st)"
| "serial_loop (BadBytes # evs) st = Escaped UnicodeDecodeError (out st)"

definition read_serial_data :: "event list \<Rightarrow> (monitor, measurement list) outcome" where
  "read_serial_data evs = serial_loop evs \<lparr>out = [], measurement_points = []\<rparr>"

section \<open>serialmonitor2.py: the 5-field capture with grouping\<close>

type_synonym point = "pyfloat \<times> pyfloat \<times> pyfloat"
type_synonym raw_tuple = "pyfloat \<times> pyfloat \<times> pyfloat \<times> pyfloat \<times> pyfloat"

definition boot_messages :: "string list" where
  "boot_messages =
     [''SPIWP:'', ''clk_drv:'', ''mode:'', ''load:'',
      ''Scanner initialized'', ''Starting full 3D scan'',
      ''Scanning at vertical angle'']"

definition is_valid_data_line :: "string \<Rightarrow> bool" where
  "is_valid_data_line line =
     (if list_ex (contains line) boot_messages then False
      else (let vals = split_on (CHR '','') line in
            if length vals = 5 then list_all (\<lambda>v. py_float v \<noteq> None) vals
            else False))"

text \<open>
  \<^verbatim>\<open>points_by_angle\<close> is a \<^verbatim>\<open>defaultdict(list)\<close> keyed by a float. A
  dictionary keeps its keys in insertion order and finds a key by \<^verbatim>\<open>==\<close>, which a
  NaN never satisfies: every NaN opens an entry of its own.
\<close>

definition key_eq :: "pyfloat \<Rightarrow> pyfloat \<Rightarrow> bool" where
  "key_eq a b \<longleftrightarrow> a = b \<and> a \<noteq> NaN"

fun group_append :: "pyfloat \<Rightarrow> point \<Rightarrow> (pyfloat \<times> point list) list \<Rightarrow> (pyfloat \<times> point list) list" where
  \<comment> \<open>\<^verbatim>\<open>points_by_angle[k].append(p)\<close>\<close>
  "group_append k p [] = [(k, [p])]"
| "group_append k p ((k', g) # rest) =
     (if key_eq k' k then (k', g @ [p]) # rest else (k', g) # group_append k p rest)"

record scanner = console +
  points_list :: "point list"
  points_by_angle :: "(pyfloat \<times> point list) list"
  raw_data :: "raw_tuple list"

definition status_report :: "string \<Rightarrow> scanner \<Rightarrow> scanner" where
  \<comment> \<open>what the loop prints for a line it skips\<close>
  "status_report line st =
     (if contains line ''Starting full 3D scan'' then print (Text (CHR 0x0A # ''Scan started...'')) st
      else if contains line ''Scan complete!'' then print (Text (CHR 0x0A # ''Scan completed!'')) st
      else if contains line ''Scanning at vertical angle'' then print (Text (CHR 0x0A # line)) st
      else st)"

definition scanner_line :: "string \<Rightarrow> scanner \<Rightarrow> scanner" where
  \<comment> \<open>the loop body of \<^verbatim>\<open>read_scanner_data\<close> once a line was read\<close>
  "scanner_line raw st =
     (let line = strip raw in
      if line = [] \<or> \<not> is_valid_data_line line then status_report line st
      else (case map py_float (split_on (CHR '','') line) of
              [Some x, Some y, Some z, Some vert_angle, Some vert_dist] \<Rightarrow>
                print (Vals ''Point captured'' [x, y, z, vert_angle])
                  (st\<lparr>points_list := points_list st @ [(x, y, z)],
                      points_by_angle := group_append vert_angle (x, y, z) (points_by_angle st),
                      raw_data := raw_data st @ [(x, y, z, vert_angle, vert_dist)]\<rparr>)
            | _ \<Rightarrow> st))"

type_synonym collection = "point list \<times> (pyfloat \<times> point list) list \<times> raw_tuple list"

fun scanner_loop :: "event list \<Rightarrow> scanner \<Rightarrow> (scanner, collection) outcome" where
  "scanner_loop [] st = Polling st"
| "scanner_loop (NoData # evs) st = scanner_loop evs st"
| "scanner_loop (Line raw # evs) st = scanner_loop evs (scanner_line raw st)"
| "scanner_loop (Interrupt # evs) st =
     Returned (points_list st, points_by_angle st, raw_data st)
       (out st @ [Text (CHR 0x0A # ''Data collection stopped'')])"
| "scanner_loop (PortError # evs) st = Escaped SerialException (out st)"
| "scanner_loop (BadBytes # evs) st = Escaped UnicodeDecodeError (out st)"

definition read_scanner_data :: "event list \<Rightarrow> (scanner, collection) outcome" where
  "read_scanner_data evs =
     scanner_loop evs
       \<lparr>out = [Text ''Waiting for scanner data... (Send 'S' to start scan)'', Text ''Press Ctrl+C to stop''],
        points_list = [], points_by_angle = [], raw_data = []\<rparr>"

section \<open>test4.py: the 3-field live visualizer\<close>

record visualizer = console +
  has_ser :: bool
  points :: "point list"
  scanning :: bool

definition status_words :: "string list" where
  "status_words = [''initialized'', ''configured'', ''detected'', ''starting'', ''ready'', ''Failed'']"

definition parse_point :: "string \<Rightarrow> visualizer \<Rightarrow> visualizer" where
  \<comment> \<open>the inner \<^verbatim>\<open>try\<close> of \<^verbatim>\<open>read_data\<close>: a \<^verbatim>\<open>ValueError\<close> is passed over\<close>
  "parse_point line st =
     (if count_char (CHR '','') line = 2 then
        (case map py_float (split_on (CHR '','') line) of
           [Some x, Some y, Some z] \<Rightarrow>
             (print (Vals ''Point data'' [x, y, z]) st)\<lparr>points := points st @ [(x, y, z)]\<rparr>
         | _ \<Rightarrow> st)
      else st)"

definition read_line :: "string \<Rightarrow> visualizer \<Rightarrow> bool \<times> visualizer" where
  \<comment> \<open>\<^verbatim>\<open>read_data\<close> once a line was read\<close>
  "read_line raw st0 =
     (let line = strip raw; st = print (Text (''Debug: '' @ line)) st0 in
      if list_ex (contains line) status_words then
        (if contains line ''Failed''
         then (False, (print (Text (''Error: '' @ line)) st)\<lparr>scanning := False\<rparr>)
         else (True, print (Text (''Status: '' @ line)) st))
      else if contains line ''Scan complete''
      then (False, (print (Text ''Scan completed'') st)\<lparr>scanning := False\<rparr>)
      else (True, parse_point line st))"

fun read_data :: "event \<Rightarrow> visualizer \<Rightarrow> exn + bool \<times> visualizer" where
  "read_data ev st =
     (if \<not> has_ser st then Inr (False, st)
      else (case ev of
              NoData \<Rightarrow> Inr (True, st)
            | Line raw \<Rightarrow> Inr (read_line raw st)
            | Interrupt \<Rightarrow> Inl KeyboardInterrupt
            | PortError \<Rightarrow> Inr (False, print (Details ''Serial read error: '') st)
            | BadBytes \<Rightarrow> Inl UnicodeDecodeError))"


text \<open>
  \<^verbatim>\<open>update_plot\<close> is called once per animation frame; it redraws (not modelled) and reads
  only while \<^verbatim>\<open>scanning\<close> is set, dropping what \<^verbatim>\<open>read_data\<close> returns.
\<close>

definition update_plot :: "event \<Rightarrow> visualizer \<Rightarrow> exn + visualizer" where
  "update_plot ev st =
     (if scanning st then
        (case read_data ev st of
           Inl e \<Rightarrow> Inl e
         | Inr (ok, st') \<Rightarrow> Inr st')
      else Inr st)"

fun animate :: "event list \<Rightarrow> visualizer \<Rightarrow> exn + visualizer" where
  \<comment> \<open>the frames of \<^verbatim>\<open>FuncAnimation\<close>, one event each\<close>
  "animate [] st = Inr st"
| "animate (ev # evs) st =
     (case update_plot ev st of
        Inl e \<Rightarrow> Inl e
      | Inr st' \<Rightarrow> animate evs st')"

section \<open>test.py and test2.py: coordinates and the saved file\<close>

text \<open>
  From here on a float is a finite value, modelled by a real number with exact
  arithmetic; \<^verbatim>\<open>np.radians\<close>, \<^verbatim>\<open>np.degrees\<close> and \<^verbatim>\<open>np.arctan2\<close>
  are the functions of NumPy.
\<close>

type_synonym polar = "real \<times> real \<times> real \<times> real"
type_synonym cartesian = "real \<times> real \<times> real"

definition radians :: "real \<Rightarrow> real" where
  "radians d = d * pi / 180"

definition degrees :: "real \<Rightarrow> real" where
  "degrees r = r * 180 / pi"

definition arctan2 :: "real \<Rightarrow> real \<Rightarrow> real" where
  \<comment> \<open>the angle of the point \<open>(x, y)\<close> in \<open>(-pi, pi]\<close>, 0 at the origin\<close>
  "arctan2 y x =
     (if 0 < x then arctan (y / x)
      else if x < 0 then (if 0 \<le> y then arctan (y / x) + pi else arctan (y / x) - pi)
      else if 0 < y then pi / 2
      else if y < 0 then - pi / 2
      else 0)"

fun convert_loop :: "polar list \<Rightarrow> cartesian list \<Rightarrow> cartesian list" where
  "convert_loop [] cartesian_points = cartesian_points"
| "convert_loop ((distance, platform_angle, vertical_angle, height) # rest) cartesian_points =
     (let platform_rad = radians platform_angle;
          vertical_rad = radians vertical_angle;
          x = distance * cos platform_rad;
          y = distance * sin platform_rad;
          z = height
      in convert_loop rest (cartesian_points @ [(x, y, z)]))"

definition convert_to_cartesian :: "polar list \<Rightarrow> cartesian list" where
  "convert_to_cartesian measurements = convert_loop measurements []"

definition test_measurement_points :: "polar list" where
  \<comment> \<open>the four samples of \<^verbatim>\<open>test.py\<close>\<close>
  "test_measurement_points = [(80, 0, 0, 0), (80, 90, 0, 50), (80, 180, 0, 100), (80, 270, 0, 150)]"

subsection \<open>Writing the file (\<^verbatim>\<open>save_data_to_file\<close> of serialmonitor2.py)\<close>

text \<open>
  A tuple is written by its \<^verbatim>\<open>repr\<close>: the \<^verbatim>\<open>repr\<close> of each float, separated by a comma
  and a space, in parentheses. The \<^verbatim>\<open>repr\<close> of a float is a function of Python, here the
  parameter \<open>rf\<close>. The file is the list of its lines.
\<close>

fun join :: "string \<Rightarrow> string list \<Rightarrow> string" where
  "join sep [] = []"
| "join sep [s] = s"
| "join sep (s # t # ss) = s @ sep @ join sep (t # ss)"

definition tuple_text :: "(real \<Rightarrow> string) \<Rightarrow> real list \<Rightarrow> string" where
  "tuple_text rf xs = ''('' @ join '', '' (map rf xs) @ '')''"

definition point_text :: "(real \<Rightarrow> string) \<Rightarrow> cartesian \<Rightarrow> string" where
  "point_text rf p = (case p of (x, y, z) \<Rightarrow> tuple_text rf [x, y, z])"

definition raw_text :: "(real \<Rightarrow> string) \<Rightarrow> real \<times> real \<times> real \<times> real \<times> real \<Rightarrow> string" where
  "raw_text rf d = (case d of (x, y, z, a, v) \<Rightarrow> tuple_text rf [x, y, z, a, v])"

definition angle_section :: "(real \<Rightarrow> string) \<Rightarrow> (real \<times> cartesian list) list \<Rightarrow> real \<Rightarrow> string list" where
  "angle_section rf by_angle angle =
     [[], ''Angle '' @ rf angle @ [CHR 0xB0, CHR '':'']]
     @ map (point_text rf) (case map_of by_angle angle of None \<Rightarrow> [] | Some ps \<Rightarrow> ps)"

definition save_data_to_file ::
  "(real \<Rightarrow> string) \<Rightarrow> cartesian list \<Rightarrow> (real \<times> cartesian list) list
     \<Rightarrow> (real \<times> real \<times> real \<times> real \<times> real) list \<Rightarrow> string list" where
  "save_data_to_file rf pts by_angle raw =
     [''=== 3D Points (x, y, z) ===''] @ map (point_text rf) pts
     @ [[], ''=== Points by Vertical Angle ==='']
     @ concat (map (angle_section rf by_angle) (sort (map fst by_angle)))
     @ [[], ''=== Raw Data (x, y, z, vertical_angle, vertical_distance) ===''] @ map (raw_text rf) raw"

subsection \<open>Reading it back (\<^verbatim>\<open>read_points_from_file\<close> of test2.py)\<close>

text \<open>
  Each data line is handed to Python's \<^verbatim>\<open>eval\<close>, here the parameter \<open>ev\<close>:
  \<open>ev text = Some xs\<close> when the text evaluates to a sequence of the numbers \<open>xs\<close>, and
  \<open>None\<close> when evaluating it, or unpacking and computing with its value, raises.
\<close>

datatype saved_file = Missing | Unreadable | Content "string list"

definition to_measurement :: "real list \<Rightarrow> polar option" where
  \<comment> \<open>unpacking the evaluated line into five names and converting it; \<open>None\<close> when the unpacking raises\<close>
  "to_measurement vals =
     (case vals of
        [x, y, z, vert_angle, vert_dist] \<Rightarrow>
          (let distance = sqrt (x * x + y * y);
               platform_angle = degrees (arctan2 y x);
               platform_angle = (if platform_angle < 0 then platform_angle + 360 else platform_angle)
           in Some (vert_dist, platform_angle, vert_angle, z))
      | _ \<Rightarrow> None)"

fun raw_loop :: "(string \<Rightarrow> real list option) \<Rightarrow> string list \<Rightarrow> bool \<Rightarrow> polar list \<Rightarrow> polar list option" where
  \<comment> \<open>the loop over the lines; \<open>None\<close> when an exception left it\<close>
  "raw_loop ev [] start_reading measurements = Some measurements"
| "raw_loop ev (line # rest) start_reading measurements =
     (if contains line ''=== Raw Data'' then raw_loop ev rest True measurements
      else if start_reading \<and> strip line \<noteq> [] \<and> CHR '','' \<in> set line then
        (case ev (strip line) of
           None \<Rightarrow> None
         | Some vals \<Rightarrow>
             (case to_measurement vals of
                None \<Rightarrow> None
              | Some m \<Rightarrow> raw_loop ev rest start_reading (measurements @ [m])))
      else raw_loop ev rest start_reading measurements)"

definition read_points_from_file ::
  "(string \<Rightarrow> real list option) \<Rightarrow> string \<Rightarrow> saved_file \<Rightarrow> polar list \<times> printed list" where
  \<comment> \<open>the list returned and the lines printed\<close>
  "read_points_from_file ev filename f =
     (case f of
        Missing \<Rightarrow> ([], [Text (''Error: Could not find '' @ filename)])
      | Unreadable \<Rightarrow> ([], [Details ''Error reading file: ''])
      | Content lines \<Rightarrow>
          (case raw_loop ev lines False [] of
             None \<Rightarrow> ([], [Details ''Error reading file: ''])
           | Some measurements \<Rightarrow> (measurements, [])))"

subsection \<open>Python's \<^verbatim>\<open>repr\<close> and \<^verbatim>\<open>eval\<close> on the texts of the examples\<close>

fun digits_of :: "nat \<Rightarrow> string" where
  "digits_of n = (if n < 10 then [''0123456789'' ! n] else digits_of (n div 10) @ [''0123456789'' ! (n mod 10)])"

definition repr_whole :: "real \<Rightarrow> string" where
  \<comment> \<open>\<^verbatim>\<open>repr\<close> of a float that is a whole number below \<open>10 ^ 16\<close>: its digits and \<^verbatim>\<open>.0\<close>\<close>
  "repr_whole r = (if r < 0 then ''-'' else []) @ digits_of (nat \<lfloor>\<bar>r\<bar>\<rfloor>) @ ''.0''"

definition finite_value :: "pyfloat option \<Rightarrow> real option" where
  "finite_value v = (case v of Some (Finite r) \<Rightarrow> Some r | _ \<Rightarrow> None)"

fun all_some :: "'a option list \<Rightarrow> 'a list option" where
  "all_some [] = Some []"
| "all_some (None # vs) = None"
| "all_some (Some v # vs) = map_option ((#) v) (all_some vs)"

definition tuple_eval :: "string \<Rightarrow> real list option" where
  \<comment> \<open>\<^verbatim>\<open>eval\<close> of a tuple as \<^verbatim>\<open>repr\<close> writes it, two or more finite floats in parentheses; \<open>None\<close> on a text that is not of this form\<close>
  "tuple_eval s =
     (case s of
        [] \<Rightarrow> None
      | c # r \<Rightarrow>
          if c = CHR ''('' \<and> r \<noteq> [] \<and> last r = CHR '')'' \<and> CHR '','' \<in> set r
          then all_some (map (\<lambda>t. finite_value (py_float t)) (split_on (CHR '','') (butlast r)))
          else None)"


section \<open>Reading the collections\<close>








section \<open>Evaluating the text primitives\<close>

lemmas float_eval =
  py_float_def strip_def py_space_def is_digit_def parse_unsigned_def ci_word_def
  parse_decimal_def parse_exponent_def scale10_def digits_val_def digit_val_def

lemma float_examples:
  "py_float ''10'' = Some (Finite 10)"
  "py_float '' -1.5e2 '' = Some (Finite (- 150))"
  "py_float ''1_000.5'' = Some (Finite (2001 / 2))"
  "py_float ''-Inf'' = Some NInf"
  "py_float ''nan'' = Some NaN"
  "py_float ''clk_drv:'' = None"
  "py_float ''1__0'' = None"
  "py_float [] = None"
  by (simp_all add: float_eval)

section \<open>The forward conversion\<close>

lemma convert_loop_map:
  "convert_loop ms acc =
     acc @ map (\<lambda>(distance, platform_angle, vertical_angle, height).
                  (distance * cos (radians platform_angle),
                   distance * sin (radians platform_angle), height)) ms"
  by (induction ms arbitrary: acc) (auto simp: Let_def)

lemma three_quarter_turn:
  "cos (radians 270) = 0" "sin (radians 270) = - 1"
proof -
  have "radians 270 = 3 / 2 * pi"
    by (simp add: radians_def)
  then show "cos (radians 270) = 0" "sin (radians 270) = - 1"
    by (simp_all only: cos_3over2_pi sin_3over2_pi)
qed

lemma quarter_turns:
  "radians 0 = 0" "radians 90 = pi / 2" "radians 180 = pi"
  by (simp_all add: radians_def)

text \<open>
  C1. For every list of 4-field polar samples the conversion returns, sample by sample, the
  point \<open>(distance * cos (radians platform_angle), distance * sin (radians platform_angle),
  height)\<close>: the platform angle goes from degrees to radians, \<open>z\<close> is the height field as
  it stands, and the vertical angle has no influence on the result. The four samples of
  \<^verbatim>\<open>test.py\<close> convert to \<open>(80, 0, 0)\<close>, \<open>(0, 80, 50)\<close>, \<open>(-80, 0, 100)\<close> and
  \<open>(0, -80, 150)\<close>, here exactly, since the arithmetic of the model is exact.
\<close>

theorem forward_conversion:
  "convert_to_cartesian ms =
     map (\<lambda>(distance, platform_angle, vertical_angle, height).
            (distance * cos (platform_angle * pi / 180),
             distance * sin (platform_angle * pi / 180), height)) ms
   \<and> convert_to_cartesian [(distance, platform_angle, vertical_angle, height)] =
       convert_to_cartesian [(distance, platform_angle, other_vertical_angle, height)]
   \<and> convert_to_cartesian test_measurement_points =
       [(80, 0, 0), (0, 80, 50), (- 80, 0, 100), (0, - 80, 150)]"
proof (intro conjI)
  show "convert_to_cartesian ms =
     map (\<lambda>(distance, platform_angle, vertical_angle, height).
            (distance * cos (platform_angle * pi / 180),
             distance * sin (platform_angle * pi / 180), height)) ms"
    by (simp add: convert_to_cartesian_def convert_loop_map radians_def)
  show "convert_to_cartesian [(distance, platform_angle, vertical_angle, height)] =
     convert_to_cartesian [(distance, platform_angle, other_vertical_angle, height)]"
    by (simp add: convert_to_cartesian_def convert_loop_map)
  show "convert_to_cartesian test_measurement_points =
     [(80, 0, 0), (0, 80, 50), (- 80, 0, 100), (0, - 80, 150)]"
    by (simp add: convert_to_cartesian_def convert_loop_map test_measurement_points_def
        quarter_turns three_quarter_turn)
qed

section \<open>The 4-field polar capture\<close>






section \<open>What a float text can hold\<close>

lemma drop_underscores_chars:
  "drop_underscores prev t = Some u \<Longrightarrow> c \<in> set t \<Longrightarrow> c \<in> set u \<or> c = CHR ''_''"
proof (induction t arbitrary: prev u)
  case Nil
  then show ?case by simp
next
  case (Cons d t)
  show ?case
  proof (cases "d = CHR ''_''")
    case True
    with Cons.prems(1) have "drop_underscores False t = Some u"
      by (simp split: if_splits)
    with Cons.IH Cons.prems(2) True show ?thesis by auto
  next
    case False
    with Cons.prems(1) obtain u' where u': "drop_underscores (is_digit d) t = Some u'" "u = d # u'"
      by auto
    with Cons.IH Cons.prems(2) show ?thesis by auto
  qed
qed

lemma ci_word_chars:
  assumes "ci_word lo up s" "c \<in> set s"
  shows "c \<in> set lo \<or> c \<in> set up"
proof -
  from assms(2) obtain i where i: "i < length s" "s ! i = c"
    by (auto simp: in_set_conv_nth)
  from assms(1) have len: "length s = length (zip lo up)"
    and nth: "\<And>j. j < length s \<Longrightarrow> (case zip lo up ! j of (l, u) \<Rightarrow> s ! j = l \<or> s ! j = u)"
    by (auto simp: ci_word_def list_all2_conv_all_nth)
  from i len have "i < length lo" "i < length up" by simp_all
  with nth [OF i(1)] i(2) show ?thesis by auto
qed

lemma parse_exponent_signed:
  "parse_exponent (m # CHR ''-'' # r') = Some e \<Longrightarrow> list_all is_digit r'"
  "parse_exponent (m # CHR ''+'' # r') = Some e \<Longrightarrow> list_all is_digit r'"
  by (simp_all add: parse_exponent_def split: if_splits)

lemma parse_exponent_unsigned:
  "s \<noteq> CHR ''-'' \<Longrightarrow> s \<noteq> CHR ''+'' \<Longrightarrow> parse_exponent (m # s # r') = Some e \<Longrightarrow>
   list_all is_digit (s # r')"
  by (simp add: parse_exponent_def split: if_splits)

lemma parse_exponent_mark:
  "parse_exponent (m # r1) = Some e \<Longrightarrow> m = CHR ''e'' \<or> m = CHR ''E''"
  by (simp add: parse_exponent_def split: if_splits)

lemma digits_chars: "list_all is_digit ds \<Longrightarrow> c \<in> set ds \<Longrightarrow> is_digit c"
  by (simp add: list_all_iff)

lemma parse_exponent_chars:
  assumes "parse_exponent r = Some e" "c \<in> set r"
  shows "is_digit c \<or> c = CHR ''e'' \<or> c = CHR ''E'' \<or> c = CHR ''+'' \<or> c = CHR ''-''"
proof (cases r)
  case Nil
  with assms(2) show ?thesis by simp
next
  case (Cons m r1)
  note r = this
  from assms(1) r have m: "m = CHR ''e'' \<or> m = CHR ''E''"
    using parse_exponent_mark by blast
  show ?thesis
  proof (cases "c = m")
    case True
    with m show ?thesis by blast
  next
    case False
    with assms(2) r have c1: "c \<in> set r1" by simp
    then obtain s r' where r1: "r1 = s # r'" by (cases r1) auto
    consider "s = CHR ''-''" | "s = CHR ''+''" | "s \<noteq> CHR ''-''" "s \<noteq> CHR ''+''"
      by blast
    then show ?thesis
    proof cases
      case 1
      with assms(1) r r1 have "list_all is_digit r'"
        using parse_exponent_signed(1) by blast
      then have "c \<in> set r' \<Longrightarrow> is_digit c"
        by (rule digits_chars)
      moreover from c1 r1 have "c = s \<or> c \<in> set r'" by simp
      ultimately show ?thesis using 1 by blast
    next
      case 2
      with assms(1) r r1 have "list_all is_digit r'"
        using parse_exponent_signed(2) by blast
      then have "c \<in> set r' \<Longrightarrow> is_digit c"
        by (rule digits_chars)
      moreover from c1 r1 have "c = s \<or> c \<in> set r'" by simp
      ultimately show ?thesis using 2 by blast
    next
      case 3
      with assms(1) r r1 have "list_all is_digit r1"
        using parse_exponent_unsigned by blast
      with c1 have "is_digit c"
        by (rule digits_chars [rotated])
      then show ?thesis by blast
    qed
  qed
qed


lemma strip_chars:
  assumes "c \<in> set s"
  shows "c \<in> set (strip s) \<or> py_space c"
proof -
  let ?t = "dropWhile py_space s"
  have "s = takeWhile py_space s @ ?t" by simp
  then have "set s = set (takeWhile py_space s) \<union> set ?t"
    by (metis set_append)
  moreover have "rev ?t = takeWhile py_space (rev ?t) @ dropWhile py_space (rev ?t)" by simp
  then have "set (rev ?t) = set (takeWhile py_space (rev ?t)) \<union> set (dropWhile py_space (rev ?t))"
    by (metis set_append)
  ultimately have "c \<in> set (takeWhile py_space s) \<or> c \<in> set (takeWhile py_space (rev ?t))
      \<or> c \<in> set (strip s)"
    using assms by (auto simp: strip_def)
  then show ?thesis
    by (auto dest: set_takeWhileD)
qed

lemma digit_run_chars: "c \<in> set (takeWhile is_digit r) \<Longrightarrow> is_digit c"
  by (auto dest: set_takeWhileD)

lemma parse_decimal_point:
  "dropWhile is_digit r = CHR ''.'' # r' \<Longrightarrow> parse_decimal r = Some x \<Longrightarrow>
   \<exists>e. parse_exponent (dropWhile is_digit r') = Some e"
  by (simp add: parse_decimal_def Let_def split: if_splits option.splits)

lemma parse_decimal_no_point:
  "dropWhile is_digit r = p # r' \<Longrightarrow> p \<noteq> CHR ''.'' \<Longrightarrow> parse_decimal r = Some x \<Longrightarrow>
   \<exists>e. parse_exponent (p # r') = Some e"
  by (simp add: parse_decimal_def Let_def split: if_splits option.splits)

lemma parse_decimal_chars:
  assumes "parse_decimal r = Some x" "c \<in> set r"
  shows "is_digit c \<or> c = CHR ''.'' \<or> c = CHR ''e'' \<or> c = CHR ''E'' \<or> c = CHR ''+'' \<or> c = CHR ''-''"
proof -
  let ?r1 = "dropWhile is_digit r"
  have "r = takeWhile is_digit r @ ?r1" by simp
  then have "set r = set (takeWhile is_digit r) \<union> set ?r1"
    by (metis set_append)
  with assms(2) consider "c \<in> set (takeWhile is_digit r)" | "c \<in> set ?r1"
    by blast
  then show ?thesis
  proof cases
    case 1
    then show ?thesis using digit_run_chars by blast
  next
    case 2
    then obtain p r' where r1: "?r1 = p # r'" by (cases ?r1) auto
    show ?thesis
    proof (cases "p = CHR ''.''")
      case True
      with r1 assms(1) obtain e where e: "parse_exponent (dropWhile is_digit r') = Some e"
        using parse_decimal_point by blast
      have "r' = takeWhile is_digit r' @ dropWhile is_digit r'" by simp
      then have "set r' = set (takeWhile is_digit r') \<union> set (dropWhile is_digit r')"
        by (metis set_append)
      with 2 r1 consider "c = p" | "c \<in> set (takeWhile is_digit r')"
        | "c \<in> set (dropWhile is_digit r')"
        by auto
      then show ?thesis
      proof cases
        case 1 with True show ?thesis by blast
      next
        case 2 then show ?thesis using digit_run_chars by blast
      next
        case 3 with e show ?thesis using parse_exponent_chars by blast
      qed
    next
      case False
      with r1 assms(1) obtain e where "parse_exponent (p # r') = Some e"
        using parse_decimal_no_point by blast
      with 2 r1 show ?thesis using parse_exponent_chars [of "p # r'" e c] by auto
    qed
  qed
qed

lemma special_words:
  "set ''inf'' \<union> set ''INF'' \<subseteq> set ''_+-.eEinfatyINFATY''"
  "set ''infinity'' \<union> set ''INFINITY'' \<subseteq> set ''_+-.eEinfatyINFATY''"
  "set ''nan'' \<union> set ''NAN'' \<subseteq> set ''_+-.eEinfatyINFATY''"
  by simp_all

lemma decimal_marks:
  "c = CHR ''.'' \<or> c = CHR ''e'' \<or> c = CHR ''E'' \<or> c = CHR ''+'' \<or> c = CHR ''-'' \<or> c = CHR ''_''
   \<Longrightarrow> c \<in> set ''_+-.eEinfatyINFATY''"
  by (elim disjE) simp_all

lemma parse_unsigned_chars:
  assumes "parse_unsigned r = Some f" "c \<in> set r"
  shows "float_char c"
proof -
  consider "ci_word ''inf'' ''INF'' r" | "ci_word ''infinity'' ''INFINITY'' r"
    | "ci_word ''nan'' ''NAN'' r" | "\<exists>x. parse_decimal r = Some x"
    using assms(1) by (auto simp: parse_unsigned_def split: if_splits)
  then show ?thesis
  proof cases
    case 1
    then have "c \<in> set ''inf'' \<union> set ''INF''"
      using ci_word_chars assms(2) by blast
    with special_words(1) show ?thesis
      unfolding float_char_def by blast
  next
    case 2
    then have "c \<in> set ''infinity'' \<union> set ''INFINITY''"
      using ci_word_chars assms(2) by blast
    with special_words(2) show ?thesis
      unfolding float_char_def by blast
  next
    case 3
    then have "c \<in> set ''nan'' \<union> set ''NAN''"
      using ci_word_chars assms(2) by blast
    with special_words(3) show ?thesis
      unfolding float_char_def by blast
  next
    case 4
    then obtain x where "parse_decimal r = Some x" by blast
    from parse_decimal_chars [OF this assms(2)] show ?thesis
      unfolding float_char_def using decimal_marks [of c] by blast
  qed
qed

lemma py_float_sign:
  "py_float v = Some f \<Longrightarrow> drop_underscores False (strip v) = Some (d # r) \<Longrightarrow>
   (d = CHR ''-'' \<or> d = CHR ''+'') \<and> (\<exists>g. parse_unsigned r = Some g)
   \<or> (\<exists>g. parse_unsigned (d # r) = Some g)"
  by (auto simp: py_float_def split: if_splits)

lemma py_float_chars:
  assumes "py_float v = Some f" "c \<in> set v"
  shows "float_char c"
proof -
  from assms(1) obtain u where u: "drop_underscores False (strip v) = Some u"
    by (auto simp: py_float_def split: option.splits)
  from strip_chars [OF assms(2)] consider "py_space c" | "c \<in> set (strip v)"
    by blast
  then show ?thesis
  proof cases
    case 1
    then show ?thesis by (simp add: float_char_def)
  next
    case 2
    with u have "c \<in> set u \<or> c = CHR ''_''"
      by (rule drop_underscores_chars)
    then show ?thesis
    proof
      assume "c = CHR ''_''"
      then show ?thesis
        unfolding float_char_def using decimal_marks [of c] by blast
    next
      assume cu: "c \<in> set u"
      then obtain d r where d: "u = d # r" by (cases u) auto
      from py_float_sign [OF assms(1)] u d
      consider "d = CHR ''-'' \<or> d = CHR ''+''" "\<exists>g. parse_unsigned r = Some g"
        | "\<exists>g. parse_unsigned u = Some g"
        by blast
      then show ?thesis
      proof cases
        case 1
        from cu d have "c = d \<or> c \<in> set r" by simp
        then show ?thesis
        proof
          assume "c = d"
          with 1(1) show ?thesis
            unfolding float_char_def using decimal_marks [of c] by blast
        next
          assume "c \<in> set r"
          with 1(2) show ?thesis using parse_unsigned_chars by blast
        qed
      next
        case 2
        with cu show ?thesis using parse_unsigned_chars by blast
      qed
    qed
  qed
qed

lemma contains_chars: "contains line msg \<Longrightarrow> set msg \<subseteq> set line"
proof (induction line)
  case Nil
  then show ?case by simp
next
  case (Cons c cs)
  from Cons.prems consider "prefix msg (c # cs)" | "contains cs msg"
    by auto
  then show ?case
  proof cases
    case 1
    then show ?thesis by (rule set_mono_prefix)
  next
    case 2
    then have "set msg \<subseteq> set cs" by (rule Cons.IH)
    then show ?thesis by auto
  qed
qed

lemma field_chars:
  "c \<in> set line \<Longrightarrow> c \<noteq> sep \<Longrightarrow> \<exists>f \<in> set (split_on sep line). c \<in> set f"
proof (induction line)
  case Nil
  then show ?case by simp
next
  case (Cons d line)
  then show ?case
    by (cases "split_on sep line") (auto split: if_splits)
qed

lemma letter_S: "\<not> float_char (CHR ''S'')"
  by (simp add: float_char_def py_space_def is_digit_def)

lemma completion_banner_invalid:
  assumes "contains line ''Scan complete!''"
  shows "\<not> is_valid_data_line line"
proof -
  from contains_chars [OF assms] have "CHR ''S'' \<in> set line" by simp
  then obtain f where f: "f \<in> set (split_on (CHR '','') line)" "CHR ''S'' \<in> set f"
    using field_chars [of "CHR ''S''" line "CHR '',''"] by auto
  have "py_float f = None"
  proof (cases "py_float f")
    case (Some g)
    from py_float_chars [OF this f(2)] letter_S show ?thesis by blast
  qed simp
  with f(1) have "list_ex (\<lambda>v. py_float v = None) (split_on (CHR '','') line)"
    by (auto simp: list_ex_iff)
  then show ?thesis
    by (auto simp: is_valid_data_line_def Let_def list_ex_iff list_all_iff)
qed

section \<open>Lines that are not data\<close>



lemma scanner_line_skipped:
  assumes "strip raw = [] \<or> \<not> is_valid_data_line (strip raw)"
  shows "scanner_line raw st = status_report (strip raw) st"
  using assms by (auto simp: scanner_line_def Let_def)








lemma read_line_complete:
  assumes "\<not> list_ex (contains (strip raw)) status_words" "contains (strip raw) ''Scan complete''"
  shows "read_line raw st =
     (False, (print (Text ''Scan completed'')
                (print (Text (''Debug: '' @ strip raw)) st))\<lparr>scanning := False\<rparr>)"
  using assms by (simp add: read_line_def Let_def)


lemma strip_examples:
  "strip ''10.0,clk_drv:,mode:'' = ''10.0,clk_drv:,mode:''"
  "strip ''10.0,abc,7'' = ''10.0,abc,7''"
  "strip ''Scan complete!'' = ''Scan complete!''"
  by (simp_all add: strip_def py_space_def)






section \<open>How the reading loops end\<close>

lemma scanner_loop_lines:
  "scanner_loop (map Line raws) st = Polling (foldl (\<lambda>s raw. scanner_line raw s) st raws)"
  by (induction raws arbitrary: st) simp_all

lemma serial_loop_append:
  "serial_loop (evs @ evs') st =
     (case serial_loop evs st of Polling st' \<Rightarrow> serial_loop evs' st' | r \<Rightarrow> r)"
proof (induction evs arbitrary: st)
  case Nil
  show ?case by simp
next
  case (Cons ev evs)
  then show ?case by (cases ev) simp_all
qed

lemma scanner_loop_append:
  "scanner_loop (evs @ evs') st =
     (case scanner_loop evs st of Polling st' \<Rightarrow> scanner_loop evs' st' | r \<Rightarrow> r)"
proof (induction evs arbitrary: st)
  case Nil
  show ?case by simp
next
  case (Cons ev evs)
  then show ?case by (cases ev) simp_all
qed

lemma animate_idle: "\<not> scanning st \<Longrightarrow> animate evs st = Inr st"
  by (induction evs) (simp_all add: update_plot_def)

lemma scenario_c_lines:
  "scanner_line ''Scanner initialized'' st = st"
  "scanner_line ''S'' st = st"
  "scanner_line ''10,20,30,5,45'' st =
     print (Vals ''Point captured'' [Finite 10, Finite 20, Finite 30, Finite 5])
       (st\<lparr>points_list := points_list st @ [(Finite 10, Finite 20, Finite 30)],
           points_by_angle :=
             group_append (Finite 5) (Finite 10, Finite 20, Finite 30) (points_by_angle st),
           raw_data := raw_data st @ [(Finite 10, Finite 20, Finite 30, Finite 5, Finite 45)]\<rparr>)"
  "scanner_line ''Scan complete!'' st = print (Text (CHR 0x0A # ''Scan completed!'')) st"
  by (simp_all add: scanner_line_def is_valid_data_line_def boot_messages_def status_report_def
      Let_def float_eval)

lemma polar_example_line:
  "serial_line ''1,2,3,4'' st =
     print (Vals ''Received'' [Finite 1, Finite 2, Finite 3, Finite 4])
       (st\<lparr>measurement_points := measurement_points st @ [(Finite 1, Finite 2, Finite 3, Finite 4)]\<rparr>)"
  by (simp add: serial_line_def Let_def float_eval)

text \<open>
  C6, as the code has it. In the 5-field capture no line ends the loop, a completion banner
  included: after any lines the loop is still polling, and a line that contains
  \<^verbatim>\<open>Scan complete!\<close> is only reported. The loop returns at the stop signal: the session of Scenario C followed
  by Ctrl+C returns exactly one sample. In the 3-field visualizer a line that contains
  \<^verbatim>\<open>Scan complete\<close> and no status word makes \<^verbatim>\<open>read_data\<close> return \<open>False\<close> with
  \<^verbatim>\<open>scanning\<close> cleared and the points untouched, and the frames that follow read nothing.
\<close>

theorem completion_banner:
  "scanner_loop (map Line raws) st = Polling (foldl (\<lambda>s raw. scanner_line raw s) st raws)
   \<and> (contains (strip raw) ''Scan complete!'' \<and> \<not> contains (strip raw) ''Starting full 3D scan'' \<longrightarrow>
        scanner_line raw st = print (Text (CHR 0x0A # ''Scan completed!'')) st)
   \<and> read_scanner_data
        [Line ''Scanner initialized'', Line ''S'', Line ''10,20,30,5,45'', Line ''Scan complete!'',
         Interrupt]
      = Returned
          ([(Finite 10, Finite 20, Finite 30)],
           [(Finite 5, [(Finite 10, Finite 20, Finite 30)])],
           [(Finite 10, Finite 20, Finite 30, Finite 5, Finite 45)])
          [Text ''Waiting for scanner data... (Send 'S' to start scan)'', Text ''Press Ctrl+C to stop'',
           Vals ''Point captured'' [Finite 10, Finite 20, Finite 30, Finite 5],
           Text (CHR 0x0A # ''Scan completed!''), Text (CHR 0x0A # ''Data collection stopped'')]
   \<and> (has_ser vst \<and> scanning vst \<and> \<not> list_ex (contains (strip raw)) status_words
        \<and> contains (strip raw) ''Scan complete'' \<longrightarrow>
        read_data (Line raw) vst =
          Inr (False, (print (Text ''Scan completed'')
                         (print (Text (''Debug: '' @ strip raw)) vst))\<lparr>scanning := False\<rparr>)
        \<and> animate (Line raw # evs) vst =
            Inr ((print (Text ''Scan completed'')
                    (print (Text (''Debug: '' @ strip raw)) vst))\<lparr>scanning := False\<rparr>))"
proof (intro conjI impI)
  show "scanner_loop (map Line raws) st = Polling (foldl (\<lambda>s raw. scanner_line raw s) st raws)"
    by (rule scanner_loop_lines)
  show "scanner_line raw st = print (Text (CHR 0x0A # ''Scan completed!'')) st"
    if "contains (strip raw) ''Scan complete!'' \<and> \<not> contains (strip raw) ''Starting full 3D scan''"
    using that completion_banner_invalid [of "strip raw"]
    by (simp add: scanner_line_skipped status_report_def)
  show "read_scanner_data
        [Line ''Scanner initialized'', Line ''S'', Line ''10,20,30,5,45'', Line ''Scan complete!'',
         Interrupt]
      = Returned
          ([(Finite 10, Finite 20, Finite 30)],
           [(Finite 5, [(Finite 10, Finite 20, Finite 30)])],
           [(Finite 10, Finite 20, Finite 30, Finite 5, Finite 45)])
          [Text ''Waiting for scanner data... (Send 'S' to start scan)'', Text ''Press Ctrl+C to stop'',
           Vals ''Point captured'' [Finite 10, Finite 20, Finite 30, Finite 5],
           Text (CHR 0x0A # ''Scan completed!''), Text (CHR 0x0A # ''Data collection stopped'')]"
    by (simp add: read_scanner_data_def scenario_c_lines print_def)
next
  assume h: "has_ser vst \<and> scanning vst \<and> \<not> list_ex (contains (strip raw)) status_words
        \<and> contains (strip raw) ''Scan complete''"
  let ?st = "(print (Text ''Scan completed'')
                (print (Text (''Debug: '' @ strip raw)) vst))\<lparr>scanning := False\<rparr>"
  from h show r: "read_data (Line raw) vst = Inr (False, ?st)"
    by (simp add: read_line_complete)
  have "\<not> scanning ?st" by simp
  then have "animate evs ?st = Inr ?st"
    by (rule animate_idle)
  with h r show "animate (Line raw # evs) vst = Inr ?st"
    by (simp add: update_plot_def)
qed

theorem completion_banner_witness:
  "has_ser \<lparr>out = [], has_ser = True, points = [], scanning = True\<rparr>
   \<and> scanning \<lparr>out = [], has_ser = True, points = [], scanning = True\<rparr>
   \<and> \<not> list_ex (contains (strip ''Scan complete!'')) status_words
   \<and> contains (strip ''Scan complete!'') ''Scan complete''
   \<and> contains (strip ''Scan complete!'') ''Scan complete!''
   \<and> \<not> contains (strip ''Scan complete!'') ''Starting full 3D scan''
   \<and> scanner_line ''Scan complete!''
        \<lparr>out = [], points_list = [], points_by_angle = [], raw_data = []\<rparr> =
       \<lparr>out = [Text (CHR 0x0A # ''Scan completed!'')],
        points_list = [], points_by_angle = [], raw_data = []\<rparr>
   \<and> animate [Line ''Scan complete!'', Line ''1,2,3'']
        \<lparr>out = [], has_ser = True, points = [], scanning = True\<rparr>
      = Inr \<lparr>out = [Text ''Debug: Scan complete!'', Text ''Scan completed''],
             has_ser = True, points = [], scanning = False\<rparr>"
proof -
  have h: "\<not> list_ex (contains (strip ''Scan complete!'')) status_words"
    "contains (strip ''Scan complete!'') ''Scan complete''"
    "contains (strip ''Scan complete!'') ''Scan complete!''"
    "\<not> contains (strip ''Scan complete!'') ''Starting full 3D scan''"
    by (simp_all add: strip_examples status_words_def)
  show ?thesis
    using h
      completion_banner [where raws = "[]"
        and st = "\<lparr>out = [], points_list = [], points_by_angle = [], raw_data = []\<rparr>"
        and vst = "\<lparr>out = [], has_ser = True, points = [], scanning = True\<rparr>"
        and raw = "''Scan complete!''" and evs = "[Line ''1,2,3'']"]
    by (simp add: print_def strip_examples)
qed

text \<open>
  The claim C6 as it is written fails on Scenario C. The 5-field capture, the one path
  that takes the line \<^verbatim>\<open>10,20,30,5,45\<close> as a sample, is still polling after the four
  lines. The 3-field visualizer does stop at the banner, with no sample at all: the
  five-field line is not a point for it.
\<close>

theorem completion_banner_counterexample:
  "read_scanner_data
     [Line ''Scanner initialized'', Line ''S'', Line ''10,20,30,5,45'', Line ''Scan complete!'']
     = Polling
         \<lparr>out = [Text ''Waiting for scanner data... (Send 'S' to start scan)'',
                 Text ''Press Ctrl+C to stop'',
                 Vals ''Point captured'' [Finite 10, Finite 20, Finite 30, Finite 5],
                 Text (CHR 0x0A # ''Scan completed!'')],
          points_list = [(Finite 10, Finite 20, Finite 30)],
          points_by_angle = [(Finite 5, [(Finite 10, Finite 20, Finite 30)])],
          raw_data = [(Finite 10, Finite 20, Finite 30, Finite 5, Finite 45)]\<rparr>
   \<and> animate
       [Line ''Scanner initialized'', Line ''S'', Line ''10,20,30,5,45'', Line ''Scan complete!'']
       \<lparr>out = [], has_ser = True, points = [], scanning = True\<rparr>
     = Inr \<lparr>out = [Text ''Debug: Scanner initialized'', Text ''Status: Scanner initialized'',
                   Text ''Debug: S'', Text ''Debug: 10,20,30,5,45'',
                   Text ''Debug: Scan complete!'', Text ''Scan completed''],
            has_ser = True, points = [], scanning = False\<rparr>"
proof (rule conjI)
  show "read_scanner_data
     [Line ''Scanner initialized'', Line ''S'', Line ''10,20,30,5,45'', Line ''Scan complete!'']
     = Polling
         \<lparr>out = [Text ''Waiting for scanner data... (Send 'S' to start scan)'',
                 Text ''Press Ctrl+C to stop'',
                 Vals ''Point captured'' [Finite 10, Finite 20, Finite 30, Finite 5],
                 Text (CHR 0x0A # ''Scan completed!'')],
          points_list = [(Finite 10, Finite 20, Finite 30)],
          points_by_angle = [(Finite 5, [(Finite 10, Finite 20, Finite 30)])],
          raw_data = [(Finite 10, Finite 20, Finite 30, Finite 5, Finite 45)]\<rparr>"
    by (simp add: read_scanner_data_def scenario_c_lines print_def)
  show "animate
       [Line ''Scanner initialized'', Line ''S'', Line ''10,20,30,5,45'', Line ''Scan complete!'']
       \<lparr>out = [], has_ser = True, points = [], scanning = True\<rparr>
     = Inr \<lparr>out = [Text ''Debug: Scanner initialized'', Text ''Status: Scanner initialized'',
                   Text ''Debug: S'', Text ''Debug: 10,20,30,5,45'',
                   Text ''Debug: Scan complete!'', Text ''Scan completed''],
            has_ser = True, points = [], scanning = False\<rparr>"
    by (simp add: update_plot_def read_line_def Let_def status_words_def strip_def py_space_def
        print_def parse_point_def count_char_def)
qed

text \<open>
  C8, as the code has it. When the stop signal comes while a capture loop is polling, the
  function returns exactly what the loop has aggregated up to then. When instead the port
  fails, or the bytes read are not UTF-8, the exception leaves \<^verbatim>\<open>read_serial_data\<close> and
  \<^verbatim>\<open>read_scanner_data\<close>: neither has a handler for it, and nothing is returned. The
  visualizer's \<^verbatim>\<open>read_data\<close> does catch the port's exception: it returns \<open>False\<close> and
  keeps its points.
\<close>

theorem stop_signal_returns_samples:
  "(serial_loop evs mst = Polling mst' \<longrightarrow>
      serial_loop (evs @ Interrupt # rest) mst =
        Returned (measurement_points mst') (out mst' @ [Text (CHR 0x0A # ''Stopped reading data'')])
      \<and> serial_loop (evs @ PortError # rest) mst = Escaped SerialException (out mst')
      \<and> serial_loop (evs @ BadBytes # rest) mst = Escaped UnicodeDecodeError (out mst'))
   \<and> (scanner_loop sevs st = Polling st' \<longrightarrow>
      scanner_loop (sevs @ Interrupt # srest) st =
        Returned (points_list st', points_by_angle st', raw_data st')
          (out st' @ [Text (CHR 0x0A # ''Data collection stopped'')])
      \<and> scanner_loop (sevs @ PortError # srest) st = Escaped SerialException (out st')
      \<and> scanner_loop (sevs @ BadBytes # srest) st = Escaped UnicodeDecodeError (out st'))
   \<and> (has_ser vst \<longrightarrow>
      read_data PortError vst = Inr (False, print (Details ''Serial read error: '') vst)
      \<and> points (print (Details ''Serial read error: '') vst) = points vst)"
  by (simp add: serial_loop_append scanner_loop_append print_def)

theorem stop_signal_returns_samples_witness:
  "serial_loop [Line ''1,2,3,4''] \<lparr>out = [], measurement_points = []\<rparr> =
     Polling \<lparr>out = [Vals ''Received'' [Finite 1, Finite 2, Finite 3, Finite 4]],
              measurement_points = [(Finite 1, Finite 2, Finite 3, Finite 4)]\<rparr>
   \<and> serial_loop ([Line ''1,2,3,4''] @ [Interrupt]) \<lparr>out = [], measurement_points = []\<rparr> =
       Returned [(Finite 1, Finite 2, Finite 3, Finite 4)]
         [Vals ''Received'' [Finite 1, Finite 2, Finite 3, Finite 4],
          Text (CHR 0x0A # ''Stopped reading data'')]
   \<and> scanner_loop [Line ''10,20,30,5,45'']
        \<lparr>out = [], points_list = [], points_by_angle = [], raw_data = []\<rparr> =
       Polling \<lparr>out = [Vals ''Point captured'' [Finite 10, Finite 20, Finite 30, Finite 5]],
                points_list = [(Finite 10, Finite 20, Finite 30)],
                points_by_angle = [(Finite 5, [(Finite 10, Finite 20, Finite 30)])],
                raw_data = [(Finite 10, Finite 20, Finite 30, Finite 5, Finite 45)]\<rparr>
   \<and> scanner_loop ([Line ''10,20,30,5,45''] @ [Interrupt])
        \<lparr>out = [], points_list = [], points_by_angle = [], raw_data = []\<rparr> =
       Returned
         ([(Finite 10, Finite 20, Finite 30)],
          [(Finite 5, [(Finite 10, Finite 20, Finite 30)])],
          [(Finite 10, Finite 20, Finite 30, Finite 5, Finite 45)])
         [Vals ''Point captured'' [Finite 10, Finite 20, Finite 30, Finite 5],
          Text (CHR 0x0A # ''Data collection stopped'')]
   \<and> has_ser \<lparr>out = [], has_ser = True, points = [(Finite 1, Finite 2, Finite 3)], scanning = True\<rparr>
   \<and> read_data PortError
        \<lparr>out = [], has_ser = True, points = [(Finite 1, Finite 2, Finite 3)], scanning = True\<rparr> =
       Inr (False, \<lparr>out = [Details ''Serial read error: ''], has_ser = True,
                    points = [(Finite 1, Finite 2, Finite 3)], scanning = True\<rparr>)"
proof -
  have m: "serial_loop [Line ''1,2,3,4''] \<lparr>out = [], measurement_points = []\<rparr> =
     Polling \<lparr>out = [Vals ''Received'' [Finite 1, Finite 2, Finite 3, Finite 4]],
              measurement_points = [(Finite 1, Finite 2, Finite 3, Finite 4)]\<rparr>"
    by (simp add: polar_example_line print_def)
  have s: "scanner_loop [Line ''10,20,30,5,45'']
        \<lparr>out = [], points_list = [], points_by_angle = [], raw_data = []\<rparr> =
       Polling \<lparr>out = [Vals ''Point captured'' [Finite 10, Finite 20, Finite 30, Finite 5]],
                points_list = [(Finite 10, Finite 20, Finite 30)],
                points_by_angle = [(Finite 5, [(Finite 10, Finite 20, Finite 30)])],
                raw_data = [(Finite 10, Finite 20, Finite 30, Finite 5, Finite 45)]\<rparr>"
    by (simp add: scenario_c_lines print_def)
  show ?thesis
    using m s
      stop_signal_returns_samples [where evs = "[Line ''1,2,3,4'']"
        and mst = "\<lparr>out = [], measurement_points = []\<rparr>"
        and mst' = "\<lparr>out = [Vals ''Received'' [Finite 1, Finite 2, Finite 3, Finite 4]],
          measurement_points = [(Finite 1, Finite 2, Finite 3, Finite 4)]\<rparr>"
        and rest = "[]" and sevs = "[Line ''10,20,30,5,45'']"
        and st = "\<lparr>out = [], points_list = [], points_by_angle = [], raw_data = []\<rparr>"
        and st' = "\<lparr>out = [Vals ''Point captured'' [Finite 10, Finite 20, Finite 30, Finite 5]],
                points_list = [(Finite 10, Finite 20, Finite 30)],
                points_by_angle = [(Finite 5, [(Finite 10, Finite 20, Finite 30)])],
                raw_data = [(Finite 10, Finite 20, Finite 30, Finite 5, Finite 45)]\<rparr>"
        and srest = "[]"
        and vst = "\<lparr>out = [], has_ser = True, points = [(Finite 1, Finite 2, Finite 3)], scanning = True\<rparr>"]
    by (simp add: print_def)
qed

text \<open>
  The claim C8 as it is written fails when the port fails after a sample was accepted:
  the exception leaves both capture functions and the caller receives no samples.
\<close>

theorem port_failure_counterexample:
  "read_serial_data [Line ''1,2,3,4'', PortError] =
     Escaped SerialException [Vals ''Received'' [Finite 1, Finite 2, Finite 3, Finite 4]]
   \<and> read_scanner_data [Line ''10,20,30,5,45'', PortError] =
     Escaped SerialException
       [Text ''Waiting for scanner data... (Send 'S' to start scan)'', Text ''Press Ctrl+C to stop'',
        Vals ''Point captured'' [Finite 10, Finite 20, Finite 30, Finite 5]]"
  by (simp add: read_serial_data_def read_scanner_data_def polar_example_line scenario_c_lines
      print_def)

section \<open>The grouping by vertical angle\<close>




















section \<open>Reading the saved file\<close>







lemma tuple_eval_examples:
  "tuple_eval ''(1.0, 0.0, 0.0, 0.0, 1.0)'' = Some [1, 0, 0, 0, 1]"
  "tuple_eval ''(3.0, 4.0, 0.0, 0.0, 7.0)'' = Some [3, 4, 0, 0, 7]"
  "tuple_eval ''(2.0, 3.0'' = None"
  by (simp_all add: tuple_eval_def finite_value_def float_eval)

lemma tuple_strip_examples:
  "strip ''(1.0, 0.0, 0.0, 0.0, 1.0)'' = ''(1.0, 0.0, 0.0, 0.0, 1.0)''"
  "strip ''(3.0, 4.0, 0.0, 0.0, 7.0)'' = ''(3.0, 4.0, 0.0, 0.0, 7.0)''"
  "strip ''(2.0, 3.0'' = ''(2.0, 3.0''"
  by (simp_all add: strip_def py_space_def)





section \<open>The distance slot of the reconstruction\<close>

lemma radians_degrees: "radians (degrees x) = x"
  by (simp add: radians_def degrees_def)

lemma hypotenuse_345: "sqrt (1 + (4 / 3)\<^sup>2) = (5 / 3 :: real)"
  by (rule real_sqrt_unique) (simp_all add: power2_eq_square)

lemma cos_sin_345: "cos (arctan (4 / 3)) = 3 / 5" "sin (arctan (4 / 3)) = 4 / 5"
  by (simp_all add: cos_arctan sin_arctan hypotenuse_345)

lemma sqrt_345: "sqrt (3 * 3 + 4 * 4) = (5 :: real)"
  by (rule real_sqrt_unique) simp_all

lemma measurement_345:
  "to_measurement [3, 4, 0, 0, 7] = Some (7, degrees (arctan (4 / 3)), 0, 0)"
proof -
  have "0 < arctan (4 / 3 :: real)"
    by (simp add: zero_less_arctan_iff)
  then have "\<not> degrees (arctan (4 / 3)) < 0"
    by (simp add: degrees_def not_less zero_le_mult_iff zero_le_divide_iff)
  then show ?thesis
    by (simp add: to_measurement_def arctan2_def)
qed

lemma saved_345:
  "save_data_to_file repr_whole [(3, 4, 0)] [(0, [(3, 4, 0)])] [(3, 4, 0, 0, 7)] =
     [''=== 3D Points (x, y, z) ==='', ''(3.0, 4.0, 0.0)'', [],
      ''=== Points by Vertical Angle ==='', [],
      ''Angle 0.0'' @ [CHR 0xB0, CHR '':''],
      ''(3.0, 4.0, 0.0)'', [],
      ''=== Raw Data (x, y, z, vertical_angle, vertical_distance) ==='',
      ''(3.0, 4.0, 0.0, 0.0, 7.0)'']"
  by (simp add: save_data_to_file_def point_text_def raw_text_def tuple_text_def angle_section_def
      repr_whole_def)

lemma read_345:
  "read_points_from_file tuple_eval ''scanner_data.txt''
     (Content [''=== 3D Points (x, y, z) ==='', ''(3.0, 4.0, 0.0)'', [],
      ''=== Points by Vertical Angle ==='', [],
      ''Angle 0.0'' @ [CHR 0xB0, CHR '':''],
      ''(3.0, 4.0, 0.0)'', [],
      ''=== Raw Data (x, y, z, vertical_angle, vertical_distance) ==='',
      ''(3.0, 4.0, 0.0, 0.0, 7.0)''])
   = ([(7, degrees (arctan (4 / 3)), 0, 0)], [])"
  by (simp add: read_points_from_file_def tuple_strip_examples tuple_eval_examples measurement_345)

lemma arctan2_range: "- pi < arctan2 y x \<and> arctan2 y x \<le> pi"
proof -
  have b: "- (pi / 2) < arctan (y / x)" "arctan (y / x) < pi / 2"
    by (rule arctan_lbound, rule arctan_ubound)
  have p: "0 < pi" by simp
  consider "0 < x" | "x < 0" "0 \<le> y" | "x < 0" "y < 0" | "x = 0"
    by linarith
  then show ?thesis
  proof cases
    case 1
    from b p have "- pi < arctan (y / x)" "arctan (y / x) \<le> pi"
      by linarith+
    with 1 show ?thesis by (simp add: arctan2_def)
  next
    case 2
    then have "y / x \<le> 0"
      by (simp add: divide_nonneg_neg)
    then have "arctan (y / x) \<le> 0"
      by (simp add: arctan_le_zero_iff)
    with b p have "- pi < arctan (y / x) + pi" "arctan (y / x) + pi \<le> pi"
      by linarith+
    with 2 show ?thesis by (simp add: arctan2_def)
  next
    case 3
    then have "0 < y / x"
      by (simp add: divide_neg_neg)
    then have "0 < arctan (y / x)"
      by (simp add: zero_less_arctan_iff)
    with b p have "- pi < arctan (y / x) - pi" "arctan (y / x) - pi \<le> pi"
      by linarith+
    with 3 show ?thesis by (simp add: arctan2_def)
  next
    case 4
    show ?thesis
    proof (cases "0 < y")
      case True
      with 4 p show ?thesis by (simp add: arctan2_def)
    next
      case False
      note not_north = this
      show ?thesis
      proof (cases "y < 0")
        case True
        have "- (pi / 2) \<le> pi"
          using p by linarith
        with 4 True p show ?thesis by (simp add: arctan2_def del: neg_le_iff_le)
      next
        case False
        with 4 not_north p show ?thesis by (simp add: arctan2_def)
      qed
    qed
  qed
qed

lemma degrees_range: "- 180 < degrees (arctan2 y x) \<and> degrees (arctan2 y x) \<le> 180"
proof -
  have p: "0 < pi" by simp
  from arctan2_range [of y x] have "- pi < arctan2 y x" "arctan2 y x \<le> pi"
    by simp_all
  then have "- 180 * pi < arctan2 y x * 180" "arctan2 y x * 180 \<le> 180 * pi"
    by simp_all
  with p show ?thesis
    by (simp add: degrees_def pos_less_divide_eq pos_divide_le_eq)
qed

lemma normalised_range:
  "0 \<le> (if degrees (arctan2 y x) < 0 then degrees (arctan2 y x) + 360 else degrees (arctan2 y x))
   \<and> (if degrees (arctan2 y x) < 0 then degrees (arctan2 y x) + 360 else degrees (arctan2 y x)) < 360"
  using degrees_range [of y x] by auto

lemma hypotenuse_scaled:
  assumes "x \<noteq> 0"
  shows "sqrt (x * x + y * y) = \<bar>x\<bar> * sqrt (1 + (y / x)\<^sup>2)"
proof -
  have "x * x + y * y = x\<^sup>2 * (1 + (y / x)\<^sup>2)"
    using assms by (simp add: power2_eq_square field_simps)
  then have "sqrt (x * x + y * y) = sqrt (x\<^sup>2) * sqrt (1 + (y / x)\<^sup>2)"
    by (simp add: real_sqrt_mult)
  then show ?thesis by simp
qed

lemma root_pos: "0 < sqrt (1 + (t::real)\<^sup>2)"
  by (simp add: add_pos_nonneg)

lemma polar_inverse:
  "sqrt (x * x + y * y) * cos (arctan2 y x) = x \<and> sqrt (x * x + y * y) * sin (arctan2 y x) = y"
proof -
  have r: "sqrt (1 + (y / x)\<^sup>2) \<noteq> 0"
    using root_pos [of "y / x"] by simp
  consider "0 < x" | "x < 0" | "x = 0" "0 < y" | "x = 0" "y < 0" | "x = 0" "y = 0"
    by linarith
  then show ?thesis
  proof cases
    case 1
    then show ?thesis
      using r by (simp add: arctan2_def hypotenuse_scaled cos_arctan sin_arctan)
  next
    case 2
    then show ?thesis
      using r by (simp add: arctan2_def hypotenuse_scaled cos_arctan sin_arctan)
  next
    case 3
    then show ?thesis by (simp add: arctan2_def)
  next
    case 4
    then show ?thesis by (simp add: arctan2_def)
  next
    case 5
    then show ?thesis by (simp add: arctan2_def)
  qed
qed

lemma radians_full_turn: "radians (d + 360) = radians d + 2 * pi"
  by (simp add: radians_def field_simps)

text \<open>
  Had the reconstruction stored the distance it computes, the forward conversion would
  give back the point of the raw tuple.
\<close>

lemma intended_round_trip:
  "convert_to_cartesian
     [(sqrt (x * x + y * y),
       (if degrees (arctan2 y x) < 0 then degrees (arctan2 y x) + 360 else degrees (arctan2 y x)),
       vert_angle, z)] = [(x, y, z)]"
  using polar_inverse [of x y]
  by (simp add: convert_to_cartesian_def radians_full_turn radians_degrees)

text \<open>
  C2, on the code. The tuple that the reconstruction appends has the raw tuple's
  \<^verbatim>\<open>vert_dist\<close> in its first slot; the \<^verbatim>\<open>distance\<close> computed from \<open>x\<close> and \<open>y\<close> is
  not used. The angle is \<^verbatim>\<open>atan2(y, x)\<close> in degrees with 360 added when negative, which
  lies in \<open>[0, 360)\<close>, and the height is \<open>z\<close>. For the saved line \<^verbatim>\<open>(3.0, 4.0, 0.0, 0.0, 7.0)\<close> the first slot is 7,
  where the square root of \<open>x * x + y * y\<close> is 5.
\<close>

theorem reconstruction_distance_slot:
  "to_measurement [x, y, z, vert_angle, vert_dist] =
     Some (vert_dist,
           (if degrees (arctan2 y x) < 0 then degrees (arctan2 y x) + 360 else degrees (arctan2 y x)),
           vert_angle, z)
   \<and> 0 \<le> (if degrees (arctan2 y x) < 0 then degrees (arctan2 y x) + 360 else degrees (arctan2 y x))
   \<and> (if degrees (arctan2 y x) < 0 then degrees (arctan2 y x) + 360 else degrees (arctan2 y x)) < 360
   \<and> read_points_from_file tuple_eval ''scanner_data.txt''
        (Content [''=== Raw Data (x, y, z, vertical_angle, vertical_distance) ==='',
                  ''(3.0, 4.0, 0.0, 0.0, 7.0)''])
      = ([(7, degrees (arctan (4 / 3)), 0, 0)], [])
   \<and> sqrt (3 * 3 + 4 * 4) = (5 :: real)"
proof (intro conjI)
  show "to_measurement [x, y, z, vert_angle, vert_dist] =
     Some (vert_dist,
           (if degrees (arctan2 y x) < 0 then degrees (arctan2 y x) + 360 else degrees (arctan2 y x)),
           vert_angle, z)"
    by (simp add: to_measurement_def Let_def)
  show "0 \<le> (if degrees (arctan2 y x) < 0 then degrees (arctan2 y x) + 360 else degrees (arctan2 y x))"
    "(if degrees (arctan2 y x) < 0 then degrees (arctan2 y x) + 360 else degrees (arctan2 y x)) < 360"
    using normalised_range [of y x] by simp_all
  show "read_points_from_file tuple_eval ''scanner_data.txt''
        (Content [''=== Raw Data (x, y, z, vertical_angle, vertical_distance) ==='',
                  ''(3.0, 4.0, 0.0, 0.0, 7.0)''])
      = ([(7, degrees (arctan (4 / 3)), 0, 0)], [])"
    by (simp add: read_points_from_file_def tuple_strip_examples tuple_eval_examples
        measurement_345)
  show "sqrt (3 * 3 + 4 * 4) = (5 :: real)"
    by (rule sqrt_345)
qed

text \<open>
  C3, on the code. The collection of one sample, the line \<^verbatim>\<open>3,4,0,0,7\<close>, is written
  to the three sections, read back through the Raw Data section and converted forward. The
  point that comes out is \<open>(21/5, 28/5, 0)\<close>, not the original \<open>(3, 4, 0)\<close>: the forward
  conversion scales by the first slot, which holds the vertical distance 7.
\<close>

theorem persistence_round_trip_on_code:
  "convert_to_cartesian
     (fst (read_points_from_file tuple_eval ''scanner_data.txt''
        (Content (save_data_to_file repr_whole [(3, 4, 0)] [(0, [(3, 4, 0)])] [(3, 4, 0, 0, 7)]))))
   = [(21 / 5, 28 / 5, 0)]"
  by (simp only: saved_345 read_345)
    (simp add: convert_to_cartesian_def radians_degrees cos_sin_345)

end
